theory Spec2Isabelle
  imports Main "HOL-Library.AList"
begin

section \<open>Python values used by the registries\<close>

text \<open>
  A Python \<open>dict\<close> keeps its keys in insertion order; \<open>d[k] = v\<close> replaces the value
  of an existing key where it stands and appends a new key at the end. The
  case-insensitive lookups below walk \<open>items()\<close> in that order, so a dictionary is an
  association list with that update.
\<close>

type_synonym ('k, 'v) dict = "('k \<times> 'v) list"

definition dict_contains :: "('k, 'v) dict \<Rightarrow> 'k \<Rightarrow> bool" where
  "dict_contains d k = (k \<in> set (map fst d))"

definition dict_get :: "('k, 'v) dict \<Rightarrow> 'k \<Rightarrow> 'v option" where
  "dict_get d k = map_of d k"

definition dict_set :: "('k, 'v) dict \<Rightarrow> 'k \<Rightarrow> 'v \<Rightarrow> ('k, 'v) dict" where
  "dict_set d k v = AList.update k v d"

definition dict_values :: "('k, 'v) dict \<Rightarrow> 'v list" where
  "dict_values d = map snd d"

text \<open>
  \<open>str.lower()\<close>. Names are modelled as \<open>string\<close>; the function is Python's on ASCII
  letters. The lookups only ever compare \<open>lower\<close> of one name with \<open>lower\<close> of another.
\<close>

definition lower_char :: "char \<Rightarrow> char" where
  "lower_char c =
     (if (65::nat) \<le> of_char c \<and> (of_char c :: nat) \<le> 90
      then char_of ((of_char c :: nat) + 32) else c)"

definition lower :: "string \<Rightarrow> string" where
  "lower s = map lower_char s"

datatype error =
    InitRegisterError
  | BlockError
  | PacketError
  | KeyError
  | TypeError
  | UnicodeEncodeError
  | ServerError

text \<open>The calls to \<open>Logger\<close>, in the order they are made.\<close>

datatype log_event =
    Debug_Registering string string
  | Warn_WhiteSpace string
  | Warn_OverrideDoesNotExist string int string
  | Debug_Overriding string string int
  | Verbose_AddingToCache int
  | Verbose_AddingToLoopCache int

section \<open>Modules and submodules\<close>

record AbstractModule =
  NAME :: string
  DESCRIPTION :: string
  VERSION :: string

text \<open>
  Modelled from the spec: the base class \<open>AbstractSubmodule\<close> is imported from
  \<open>obsidian.module\<close> but not declared in the source at hand. Its fields are those of the
  spec's RegistryEntry (name, owning module, override flag) under the names the managers
  read them by.
\<close>

record AbstractSubmodule =
  NAME :: string
  OVERRIDE :: bool
  MODULE :: AbstractModule

text \<open>
  Modelled from the spec: \<open>AbstractManager._initSubmodule\<close> is not in the source at
  hand. It instantiates the entry class for its owning module.
\<close>

definition initSubmodule ::
  "'a AbstractSubmodule_scheme \<Rightarrow> AbstractModule \<Rightarrow> 'a AbstractSubmodule_scheme" where
  "initSubmodule cls module = cls\<lparr>MODULE := module\<rparr>"

text \<open>
  A call on a manager yields the manager as the call leaves it, what was logged, and
  the raised error or the returned value.
\<close>

type_synonym 'v outcome = "log_event list \<times> (error + 'v)"

definition manager_after :: "'m \<times> 'v outcome \<Rightarrow> 'm" where
  "manager_after r = fst r"

definition logged :: "'m \<times> 'v outcome \<Rightarrow> log_event list" where
  "logged r = fst (snd r)"

definition result :: "'m \<times> 'v outcome \<Rightarrow> error + 'v" where
  "result r = snd (snd r)"

section \<open>blocks.py\<close>

record AbstractBlock = AbstractSubmodule +
  ID :: int

record BlockManager =
  blockDict :: "(string, AbstractBlock) dict"
  blockIds :: "(int, AbstractBlock) dict"

definition BlockManager_init :: BlockManager where
  "BlockManager_init = \<lparr>blockDict = [], blockIds = []\<rparr>"

text \<open>
  Lines 80-91 of \<open>register\<close>: the special cases when \<open>OVERRIDE\<close> is set. The debug
  message of the \<open>else\<close> branch reads \<open>self._blockIds[block.ID].NAME\<close> while it is
  formatted, which raises \<open>KeyError\<close> when the id is not in the cache.
\<close>

definition register_override_log :: "BlockManager \<Rightarrow> AbstractBlock \<Rightarrow> error + log_event list" where
  "register_override_log self block =
     (if OVERRIDE block then
        (if \<not> dict_contains (blockIds self) (ID block) \<and> \<not> dict_contains (blockDict self) (NAME block)
         then Inr [Warn_OverrideDoesNotExist (NAME block) (ID block) (AbstractModule.NAME (MODULE block))]
         else (case dict_get (blockIds self) (ID block) of
                 None \<Rightarrow> Inl KeyError
               | Some old \<Rightarrow> Inr [Debug_Overriding (NAME block) (NAME old) (ID block)]))
      else Inr [])"

text \<open>
  \<open>_BlockManager.register\<close>. The manager is mutated in place and an exception leaves
  it as it is at the raise, so the result is the manager after the call, the log, and
  the raised error or the returned block.
\<close>

definition register ::
  "BlockManager \<Rightarrow> AbstractBlock \<Rightarrow> AbstractModule \<Rightarrow> BlockManager \<times> AbstractBlock outcome" where
  "register self blockClass module =
     (let block = initSubmodule blockClass module;
          log1 = Debug_Registering (NAME blockClass) (AbstractModule.NAME module)
                 # (if CHR '' '' \<in> set (NAME block) then [Warn_WhiteSpace (NAME block)] else [])
      in case register_override_log self block of
           Inl e \<Rightarrow> (self, log1, Inl e)
         | Inr log2 \<Rightarrow>
             if dict_contains (blockDict self) (NAME block) \<and> \<not> OVERRIDE block
             then (self, log1 @ log2, Inl InitRegisterError)
             else if \<not> dict_contains (blockIds self) (ID block) \<or> OVERRIDE block
             then (self\<lparr>blockIds := dict_set (blockIds self) (ID block) block,
                        blockDict := dict_set (blockDict self) (NAME block) block\<rparr>,
                   log1 @ log2 @ [Verbose_AddingToCache (ID block)], Inr block)
             else (self, log1 @ log2 @ [Verbose_AddingToCache (ID block)], Inl InitRegisterError))"


text \<open>The loop of the case-insensitive lookups: the first item whose name matches.\<close>

fun first_ignoreCase :: "(string, 'v) dict \<Rightarrow> string \<Rightarrow> 'v option" where
  "first_ignoreCase [] q = None"
| "first_ignoreCase ((n, v) # items) q =
     (if lower n = lower q then Some v else first_ignoreCase items q)"


definition BlockManager_len :: "BlockManager \<Rightarrow> nat" where
  "BlockManager_len self = length (blockDict self)"


text \<open>The manager after a run of \<open>register\<close> calls, whatever each call's outcome.\<close>

definition registerAll ::
  "BlockManager \<Rightarrow> (AbstractBlock \<times> AbstractModule) list \<Rightarrow> BlockManager" where
  "registerAll self calls = foldl (\<lambda>s (c, m). manager_after (register s c m)) self calls"

subsection \<open>The blocks and modules of the scenarios\<close>

definition module_A :: AbstractModule where
  "module_A = \<lparr>AbstractModule.NAME = ''A'', DESCRIPTION = '''', VERSION = ''''\<rparr>"

definition module_B :: AbstractModule where
  "module_B = \<lparr>AbstractModule.NAME = ''B'', DESCRIPTION = '''', VERSION = ''''\<rparr>"

definition blockClass :: "string \<Rightarrow> int \<Rightarrow> bool \<Rightarrow> AbstractBlock" where
  "blockClass name blockId override =
     \<lparr>NAME = name, OVERRIDE = override,
      MODULE = \<lparr>AbstractModule.NAME = '''', DESCRIPTION = '''', VERSION = ''''\<rparr>, ID = blockId\<rparr>"

definition stone_1_A :: BlockManager where
  "stone_1_A = manager_after (register BlockManager_init (blockClass ''Stone'' 1 False) module_A)"

definition stone_dirt :: BlockManager where
  "stone_dirt =
     registerAll BlockManager_init
       [(blockClass ''Stone'' 1 False, module_A), (blockClass ''Dirt'' 2 False, module_A)]"

section \<open>packet.py\<close>

datatype PacketDirections = REQUEST | RESPONSE | NONE

subsection \<open>Packet utils\<close>

text \<open>
  \<open>bytes\<close> are lists of 8-bit characters. The text of \<open>str\<close> is modelled by the same
  type; the encoding is the default, \<open>ascii\<close>, which is the one every caller in the
  source at hand uses: a character above 127 cannot be encoded, and a byte above 127
  cannot be decoded.
\<close>

type_synonym bytes = "char list"

text \<open>\<open>str.isspace\<close> on the characters that \<open>ascii\<close> can decode.\<close>

definition isspace :: "char \<Rightarrow> bool" where
  "isspace c = ((of_char c :: nat) \<in> {9, 10, 11, 12, 13, 28, 29, 30, 31, 32})"

definition strip :: "string \<Rightarrow> string" where
  "strip s = rev (dropWhile isspace (rev (dropWhile isspace s)))"

definition is_ascii :: "char \<Rightarrow> bool" where
  "is_ascii c = ((of_char c :: nat) < 128)"

text \<open>\<open>bytes.decode("ascii", errors="ignore")\<close> and \<open>bytearray(text, "ascii")\<close>.\<close>

definition decode_ignore :: "bytes \<Rightarrow> string" where
  "decode_ignore data = filter is_ascii data"




definition unpackString :: "bytes \<Rightarrow> string" where
  "unpackString data = strip (decode_ignore (filter (\<lambda>b. b \<noteq> CHR 0x00) data))"


subsection \<open>Packets and the directional managers\<close>

text \<open>
  \<open>AbstractPacket\<close> with its two subclasses: \<open>isRequestPacket\<close> is the test
  \<open>isinstance(packet, AbstractRequestPacket)\<close>, and \<open>PLAYERLOOP\<close> is read only when it
  holds.
\<close>

record AbstractPacket = AbstractSubmodule +
  ID :: int
  FORMAT :: string
  CRITICAL :: bool
  isRequestPacket :: bool
  PLAYERLOOP :: bool

text \<open>
  \<open>loopPackets\<close> is an attribute of the request manager only: \<open>__init__\<close> does not
  create it for another direction.
\<close>

record DirectionalPacketManager =
  packetDict :: "(string, AbstractPacket) dict"
  direction :: PacketDirections
  loopPackets :: "(int, AbstractPacket) dict option"

definition DirectionalPacketManager_init :: "PacketDirections \<Rightarrow> DirectionalPacketManager" where
  "DirectionalPacketManager_init d =
     \<lparr>packetDict = [], direction = d,
      loopPackets = (if d = REQUEST then Some [] else None)\<rparr>"

definition getAllPacketIds :: "DirectionalPacketManager \<Rightarrow> int list" where
  "getAllPacketIds self = map ID (dict_values (packetDict self))"

fun first_with_id :: "AbstractPacket list \<Rightarrow> int \<Rightarrow> AbstractPacket option" where
  "first_with_id [] packetId = None"
| "first_with_id (packet # packets) packetId =
     (if ID packet = packetId then Some packet else first_with_id packets packetId)"


definition getPacket :: "DirectionalPacketManager \<Rightarrow> string \<Rightarrow> bool \<Rightarrow> error + AbstractPacket" where
  "getPacket self packet ignoreCase =
     (if ignoreCase
      then (case first_ignoreCase (packetDict self) packet of
              Some pObject \<Rightarrow> Inr pObject | None \<Rightarrow> Inl KeyError)
      else (case dict_get (packetDict self) packet of
              Some pObject \<Rightarrow> Inr pObject | None \<Rightarrow> Inl KeyError))"

text \<open>
  Python compares an \<open>int\<close> with a \<open>str\<close> as unequal. Lines 147-157 of \<open>register\<close>
  test the packet's id against the keys of \<open>_packetDict\<close>, which are names, and the
  packet's name against \<open>getAllPacketIds()\<close>, which are ids.
\<close>

datatype pyval = PyInt int | PyStr string

definition register_packet_override_log ::
  "DirectionalPacketManager \<Rightarrow> AbstractPacket \<Rightarrow> error + log_event list" where
  "register_packet_override_log self packet =
     (if OVERRIDE packet then
        (if PyInt (ID packet) \<notin> set (map (\<lambda>kv. PyStr (fst kv)) (packetDict self))
            \<and> PyStr (NAME packet) \<notin> set (map PyInt (getAllPacketIds self))
         then Inr [Warn_OverrideDoesNotExist (NAME packet) (ID packet) (AbstractModule.NAME (MODULE packet))]
         else (case dict_get (packetDict self) (NAME packet) of
                 None \<Rightarrow> Inl KeyError
               | Some old \<Rightarrow> Inr [Debug_Overriding (NAME packet) (NAME old) (ID packet)]))
      else Inr [])"

text \<open>
  \<open>self.loopPackets[packet.ID] = packet\<close>. Where the attribute does not exist,
  \<open>__getattr__\<close> answers with \<open>getPacket("loopPackets")\<close>, and a packet found under that
  name does not support item assignment.
\<close>

definition set_loopPacket ::
  "DirectionalPacketManager \<Rightarrow> AbstractPacket \<Rightarrow> error + DirectionalPacketManager" where
  "set_loopPacket self packet =
     (case loopPackets self of
        Some cache \<Rightarrow> Inr (self\<lparr>loopPackets := Some (dict_set cache (ID packet) packet)\<rparr>)
      | None \<Rightarrow>
          (case getPacket self ''loopPackets'' True of
             Inl e \<Rightarrow> Inl e | Inr found \<Rightarrow> Inl TypeError))"

definition register_packet ::
  "DirectionalPacketManager \<Rightarrow> AbstractPacket \<Rightarrow> AbstractModule
     \<Rightarrow> DirectionalPacketManager \<times> AbstractPacket outcome" where
  "register_packet self packetClass module =
     (let packet = initSubmodule packetClass module;
          log1 = Debug_Registering (NAME packetClass) (AbstractModule.NAME module)
                 # (if CHR '' '' \<in> set (NAME packetClass) then [Warn_WhiteSpace (NAME packetClass)] else [])
      in case register_packet_override_log self packet of
           Inl e \<Rightarrow> (self, log1, Inl e)
         | Inr log2 \<Rightarrow>
             if dict_contains (packetDict self) (NAME packet) \<and> \<not> OVERRIDE packet
             then (self, log1 @ log2, Inl InitRegisterError)
             else if ID packet \<in> set (getAllPacketIds self) \<and> \<not> OVERRIDE packet
             then (self, log1 @ log2, Inl InitRegisterError)
             else if isRequestPacket packet \<and> PLAYERLOOP packet
             then (case set_loopPacket self packet of
                     Inl e \<Rightarrow> (self, log1 @ log2 @ [Verbose_AddingToLoopCache (ID packet)], Inl e)
                   | Inr self' \<Rightarrow>
                       (self'\<lparr>packetDict := dict_set (packetDict self') (NAME packet) packet\<rparr>,
                        log1 @ log2 @ [Verbose_AddingToLoopCache (ID packet)], Inr packet))
             else (self\<lparr>packetDict := dict_set (packetDict self) (NAME packet) packet\<rparr>,
                   log1 @ log2, Inr packet))"

definition DirectionalPacketManager_len :: "DirectionalPacketManager \<Rightarrow> nat" where
  "DirectionalPacketManager_len self = length (packetDict self)"


record PacketManager =
  RequestManager :: DirectionalPacketManager
  ResponseManager :: DirectionalPacketManager



text \<open>The manager after a run of \<open>register\<close> calls, whatever each call's outcome.\<close>

definition register_packets ::
  "DirectionalPacketManager \<Rightarrow> (AbstractPacket \<times> AbstractModule) list \<Rightarrow> DirectionalPacketManager" where
  "register_packets self calls = foldl (\<lambda>s (c, m). manager_after (register_packet s c m)) self calls"

text \<open>The hot-path cache of a manager; a manager without the attribute caches nothing.\<close>

definition loopCache :: "DirectionalPacketManager \<Rightarrow> (int, AbstractPacket) dict" where
  "loopCache self = (case loopPackets self of Some cache \<Rightarrow> cache | None \<Rightarrow> [])"

subsection \<open>The packets of the scenarios\<close>

definition requestPacket :: "string \<Rightarrow> int \<Rightarrow> bool \<Rightarrow> bool \<Rightarrow> AbstractPacket" where
  "requestPacket name packetId playerLoop override =
     \<lparr>NAME = name, OVERRIDE = override,
      MODULE = \<lparr>AbstractModule.NAME = '''', DESCRIPTION = '''', VERSION = ''''\<rparr>,
      ID = packetId, FORMAT = ''B'', CRITICAL = False,
      isRequestPacket = True, PLAYERLOOP = playerLoop\<rparr>"


definition packets_A_B :: DirectionalPacketManager where
  "packets_A_B =
     register_packets (DirectionalPacketManager_init REQUEST)
       [(requestPacket ''A'' 1 True False, module_A), (requestPacket ''B'' 2 False False, module_A)]"

section \<open>The extension modules\<close>

text \<open>
  Modelled from the spec: the player, its network handler and the dispatcher are not in
  the source at hand. A connection owns a set of (name, version) capabilities, fixed
  after the handshake.
\<close>

type_synonym CPEExtension = "string \<times> int"

record Player =
  username :: string
  capabilities :: "CPEExtension list"

text \<open>
  Modelled from the spec: \<open>Player.supports\<close> is not in the source at hand. It is a
  pure read query: whether the connection's capability set holds the pair.
\<close>

definition supports :: "Player \<Rightarrow> CPEExtension \<Rightarrow> bool" where
  "supports p ext = (ext \<in> set (capabilities p))"

record NetworkHandler =
  connectionInfo :: string
  player :: "Player option"

text \<open>
  What a handler does to the player it serves, in order: the calls to \<open>Logger\<close> and the
  calls to \<open>dispatcher.sendPacket\<close> with their arguments.
\<close>

datatype arg = ArgStr string | ArgInt int

datatype effect =
    Logger_info string
  | Logger_debug string
  | SendPacket AbstractPacket "arg list"

type_synonym handled = "effect list \<times> (error + unit)"

subsection \<open>modules/cpe/texthotkey.py\<close>

record hotkey =
  action :: string
  keyCode :: int
  keyMods :: int



text \<open>
  The loop of \<open>sendTextHotkeys\<close> over the configured hotkeys.
  \<open>Packets.Response.SetTextHotKey\<close> is \<open>getPacket\<close> on the response manager.
\<close>

fun sendHotkeys :: "PacketManager \<Rightarrow> (string \<times> hotkey) list \<Rightarrow> handled" where
  "sendHotkeys Packets [] = ([], Inr ())"
| "sendHotkeys Packets ((label, data) # hotkeys) =
     (case getPacket (ResponseManager Packets) ''SetTextHotKey'' True of
        Inl e \<Rightarrow> ([Logger_debug ''Sending Hotkey''], Inl e)
      | Inr packet \<Rightarrow>
          (Logger_debug ''Sending Hotkey''
             # SendPacket packet [ArgStr label, ArgStr (action data), ArgInt (keyCode data), ArgInt (keyMods data)]
             # fst (sendHotkeys Packets hotkeys),
           snd (sendHotkeys Packets hotkeys)))"

definition sendTextHotkeys ::
  "PacketManager \<Rightarrow> (string \<times> hotkey) list \<Rightarrow> NetworkHandler \<Rightarrow> handled" where
  "sendTextHotkeys Packets hotkeys self =
     (case player self of
        None \<Rightarrow> ([], Inl ServerError)
      | Some p \<Rightarrow>
          if supports p (''TextHotKey'', 1)
          then (Logger_info ''Sending Hotkeys'' # fst (sendHotkeys Packets hotkeys),
                snd (sendHotkeys Packets hotkeys))
          else ([Logger_info ''Skipping Hotkey Processing. (No CPE Support)''], Inr ()))"

subsection \<open>modules/clickdistance.py\<close>

record ClickDistanceMetadata =
  distance :: int

text \<open>
  Modelled from the spec: \<open>World\<close> and \<open>WorldPlayerManager\<close> are not in the source at
  hand. Of a world only the injected \<open>clickDistance\<close> metadata is read, of a world player
  manager only its world.
\<close>

record World =
  clickDistance :: ClickDistanceMetadata

record WorldPlayerManager =
  world :: World



text \<open>
  The injected \<open>Player.setClickDistance\<close> and the hook \<open>sendClickDistance\<close> that runs after
  a player has joined a world.
\<close>

definition setClickDistance :: "PacketManager \<Rightarrow> Player \<Rightarrow> int \<Rightarrow> handled" where
  "setClickDistance Packets self distance' =
     (case getPacket (ResponseManager Packets) ''SetClickDistance'' True of
        Inl e \<Rightarrow> ([Logger_info ''Setting click distance''], Inl e)
      | Inr packet \<Rightarrow>
          ([Logger_info ''Setting click distance'', SendPacket packet [ArgInt distance']], Inr ()))"

definition sendClickDistance :: "PacketManager \<Rightarrow> WorldPlayerManager \<Rightarrow> Player \<Rightarrow> handled" where
  "sendClickDistance Packets self p = setClickDistance Packets p (distance (clickDistance (world self)))"




definition sent_packets :: "handled \<Rightarrow> string list" where
  "sent_packets h = concat (map (\<lambda>e. case e of SendPacket packet args \<Rightarrow> [NAME packet] | _ \<Rightarrow> []) (fst h))"

section \<open>Predicates and scenarios of the properties\<close>


text \<open>
  Every block stands under its own name and its own id, and the name and the id of
  every stored block are keys of the two indexes.
\<close>

definition keys_cover :: "BlockManager \<Rightarrow> bool" where
  "keys_cover self =
     ((\<forall>n b. (n, b) \<in> set (blockDict self)
          \<longrightarrow> NAME b = n \<and> dict_contains (blockIds self) (AbstractBlock.ID b))
      \<and> (\<forall>i b. (i, b) \<in> set (blockIds self)
          \<longrightarrow> AbstractBlock.ID b = i \<and> dict_contains (blockDict self) (NAME b)))"




text \<open>
  A byte that \<open>unpackString\<close> drops wherever it stands or strips at either end, and a
  byte that it keeps when it is not at an end.
\<close>

definition padding :: "char \<Rightarrow> bool" where
  "padding c = (c = CHR 0x00 \<or> isspace c \<or> \<not> is_ascii c)"

definition kept :: "char \<Rightarrow> bool" where
  "kept c = (is_ascii c \<and> c \<noteq> CHR 0x00)"




section \<open>Dictionaries\<close>


lemma dict_contains_set: "dict_contains (dict_set d k v) k' = (k' = k \<or> dict_contains d k')"
  using dom_update [of k v d] by (auto simp: dict_contains_def dict_set_def)

lemma dict_contains_get: "dict_contains d k = (dict_get d k \<noteq> None)"
  by (simp add: dict_contains_def dict_get_def map_of_eq_None_iff)


lemma dict_set_entries: "kv \<in> set (dict_set d k v) \<Longrightarrow> kv = (k, v) \<or> kv \<in> set d"
  by (induction d) (auto simp: dict_set_def split: if_splits)

lemma dict_entry_contains: "(k, v) \<in> set d \<Longrightarrow> dict_contains d k"
  by (force simp: dict_contains_def)




section \<open>The case-insensitive scan\<close>







section \<open>Entries\<close>

lemma initSubmodule_fields [simp]:
  "NAME (initSubmodule c m) = NAME c" "OVERRIDE (initSubmodule c m) = OVERRIDE c"
  "AbstractBlock.ID (initSubmodule b m) = AbstractBlock.ID b"
  "AbstractPacket.ID (initSubmodule p m) = AbstractPacket.ID p"
  "isRequestPacket (initSubmodule p m) = isRequestPacket p"
  "PLAYERLOOP (initSubmodule p m) = PLAYERLOOP p"
  by (simp_all add: initSubmodule_def)


section \<open>The block manager\<close>

lemma register_raises_unchanged:
  "result (register self c m) = Inl e \<Longrightarrow> manager_after (register self c m) = self"
  by (auto simp: register_def Let_def result_def manager_after_def split: sum.splits if_splits)

lemma register_returns:
  assumes "result (register self c m) = Inr b"
  shows "b = initSubmodule c m"
    and "blockIds (manager_after (register self c m)) = dict_set (blockIds self) (AbstractBlock.ID c) b"
    and "blockDict (manager_after (register self c m)) = dict_set (blockDict self) (NAME c) b"
  using assms
  by (auto simp: register_def Let_def result_def manager_after_def initSubmodule_def
           split: sum.splits if_splits)



lemma register_conflict:
  assumes "\<not> OVERRIDE c"
    and "dict_contains (blockDict self) (NAME c) \<or> dict_contains (blockIds self) (AbstractBlock.ID c)"
  shows "result (register self c m) = Inl InitRegisterError"
    and "manager_after (register self c m) = self"
  using assms
  by (auto simp: register_def register_override_log_def Let_def result_def manager_after_def
                 initSubmodule_def)










lemma keys_cover_init: "keys_cover BlockManager_init"
  by (simp add: keys_cover_def BlockManager_init_def)

lemma keys_cover_register:
  assumes inv: "keys_cover self"
  shows "keys_cover (manager_after (register self c m))"
proof (cases "result (register self c m)")
  case (Inl e)
  with inv show ?thesis by (simp add: register_raises_unchanged)
next
  case (Inr b)
  note r = register_returns [OF Inr]
  have b: "NAME b = NAME c" "AbstractBlock.ID b = AbstractBlock.ID c"
    using r(1) by simp_all
  show ?thesis
    unfolding keys_cover_def r(2,3)
    using inv b by (auto simp: keys_cover_def dict_contains_set dest!: dict_set_entries)
qed

lemma keys_cover_registerAll: "keys_cover self \<Longrightarrow> keys_cover (registerAll self calls)"
proof (induction calls arbitrary: self)
  case Nil
  then show ?case by (simp add: registerAll_def)
next
  case (Cons call calls)
  obtain c m where call: "call = (c, m)" by (cases call)
  from Cons.prems have "keys_cover (manager_after (register self c m))"
    by (rule keys_cover_register)
  with Cons.IH [of "manager_after (register self c m)"] call
  show ?case by (simp add: registerAll_def)
qed

lemma keys_cover_collision:
  assumes inv: "keys_cover self"
    and e: "e \<in> set (dict_values (blockDict self)) \<union> set (dict_values (blockIds self))"
    and same: "NAME e = NAME c \<or> AbstractBlock.ID e = AbstractBlock.ID c"
  shows "dict_contains (blockDict self) (NAME c) \<or> dict_contains (blockIds self) (AbstractBlock.ID c)"
proof -
  from e have "(\<exists>n. (n, e) \<in> set (blockDict self)) \<or> (\<exists>i. (i, e) \<in> set (blockIds self))"
    by (auto simp: dict_values_def)
  then have "dict_contains (blockDict self) (NAME e) \<and> dict_contains (blockIds self) (AbstractBlock.ID e)"
    using inv by (auto simp: keys_cover_def dest: dict_entry_contains)
  with same show ?thesis by auto
qed

lemma register_override_warns_iff:
  "OVERRIDE c \<Longrightarrow>
     (Warn_OverrideDoesNotExist (NAME c) (AbstractBlock.ID c) (AbstractModule.NAME m)
        \<in> set (logged (register self c m)))
     = (\<not> dict_contains (blockIds self) (AbstractBlock.ID c) \<and> \<not> dict_contains (blockDict self) (NAME c))"
  by (auto simp: register_def register_override_log_def Let_def logged_def initSubmodule_def
           split: sum.splits option.splits)

lemma register_override_partial_collision:
  "OVERRIDE c \<Longrightarrow> dict_contains (blockDict self) (NAME c)
     \<Longrightarrow> \<not> dict_contains (blockIds self) (AbstractBlock.ID c)
     \<Longrightarrow> result (register self c m) = Inl KeyError"
  by (auto simp: register_def register_override_log_def Let_def result_def initSubmodule_def
                 dict_contains_get
           split: sum.splits option.splits)



section \<open>The packet managers\<close>


lemma first_with_id_None: "(first_with_id ps i = None) = (i \<notin> set (map AbstractPacket.ID ps))"
  by (induction ps) auto


lemma register_packet_raises_unchanged:
  "result (register_packet self c m) = Inl e \<Longrightarrow> manager_after (register_packet self c m) = self"
  by (auto simp: register_packet_def Let_def result_def manager_after_def
           split: sum.splits if_splits)

lemma register_packet_returns:
  assumes "result (register_packet self c m) = Inr p"
  shows "p = initSubmodule c m"
    and "packetDict (manager_after (register_packet self c m)) = dict_set (packetDict self) (NAME c) p"
    and "loopCache (manager_after (register_packet self c m))
          = (if isRequestPacket c \<and> PLAYERLOOP c
             then dict_set (loopCache self) (AbstractPacket.ID c) p else loopCache self)"
  using assms
  by (auto simp: register_packet_def Let_def result_def manager_after_def set_loopPacket_def
                 loopCache_def
           split: sum.splits if_splits option.splits)


lemma register_packet_conflict:
  assumes "\<not> OVERRIDE c"
    and "dict_contains (packetDict self) (NAME c) \<or> AbstractPacket.ID c \<in> set (getAllPacketIds self)"
  shows "result (register_packet self c m) = Inl InitRegisterError"
    and "manager_after (register_packet self c m) = self"
  using assms
  by (auto simp: register_packet_def register_packet_override_log_def Let_def result_def
                 manager_after_def initSubmodule_def)



lemma packet_id_listed: "(n, p) \<in> set (packetDict self) \<Longrightarrow> AbstractPacket.ID p \<in> set (getAllPacketIds self)"
  by (force simp: getAllPacketIds_def dict_values_def)













lemma names_keyed_register:
  assumes inv: "\<forall>n p. (n, p) \<in> set (packetDict self) \<longrightarrow> NAME p = n"
  shows "\<forall>n p. (n, p) \<in> set (packetDict (manager_after (register_packet self c m))) \<longrightarrow> NAME p = n"
proof (cases "result (register_packet self c m)")
  case (Inl e)
  with inv show ?thesis by (simp add: register_packet_raises_unchanged)
next
  case (Inr p)
  note r = register_packet_returns [OF Inr]
  have "NAME p = NAME c" using r(1) by simp
  with inv show ?thesis unfolding r(2) by (auto dest!: dict_set_entries)
qed

lemma names_keyed_register_packets:
  "\<forall>n p. (n, p) \<in> set (packetDict self) \<longrightarrow> NAME p = n
     \<Longrightarrow> \<forall>n p. (n, p) \<in> set (packetDict (register_packets self calls)) \<longrightarrow> NAME p = n"
proof (induction calls arbitrary: self)
  case Nil
  then show ?case by (simp add: register_packets_def)
next
  case (Cons call calls)
  obtain c m where call: "call = (c, m)" by (cases call)
  from Cons.prems
  have "\<forall>n p. (n, p) \<in> set (packetDict (manager_after (register_packet self c m))) \<longrightarrow> NAME p = n"
    by (rule names_keyed_register)
  from Cons.IH [OF this] call show ?case by (simp add: register_packets_def)
qed

lemma packet_collision:
  assumes e: "e \<in> set (dict_values (packetDict (register_packets (DirectionalPacketManager_init d) calls)))"
    and same: "NAME e = NAME c \<or> AbstractPacket.ID e = AbstractPacket.ID c"
  shows "dict_contains (packetDict (register_packets (DirectionalPacketManager_init d) calls)) (NAME c)
         \<or> AbstractPacket.ID c \<in> set (getAllPacketIds (register_packets (DirectionalPacketManager_init d) calls))"
proof -
  let ?s = "register_packets (DirectionalPacketManager_init d) calls"
  have "\<forall>n p. (n, p) \<in> set (packetDict (DirectionalPacketManager_init d)) \<longrightarrow> NAME p = n"
    by (simp add: DirectionalPacketManager_init_def)
  then have keyed: "\<forall>n p. (n, p) \<in> set (packetDict ?s) \<longrightarrow> NAME p = n"
    by (rule names_keyed_register_packets)
  from e obtain n where n: "(n, e) \<in> set (packetDict ?s)" by (auto simp: dict_values_def)
  with keyed have "dict_contains (packetDict ?s) (NAME e)" by (auto dest: dict_entry_contains)
  moreover from n have "AbstractPacket.ID e \<in> set (getAllPacketIds ?s)" by (rule packet_id_listed)
  ultimately show ?thesis using same by auto
qed

lemma register_packet_override_always_warns:
  "OVERRIDE c \<Longrightarrow>
     Warn_OverrideDoesNotExist (NAME c) (AbstractPacket.ID c) (AbstractModule.NAME m)
       \<in> set (logged (register_packet self c m))"
  by (auto simp: register_packet_def register_packet_override_log_def Let_def logged_def
                 initSubmodule_def getAllPacketIds_def
           split: sum.splits option.splits)



section \<open>Fixed-width strings\<close>

lemma dropWhile_all: "list_all P xs \<Longrightarrow> dropWhile P (xs @ ys) = dropWhile P ys"
  by (induction xs) auto

lemma dropWhile_hd: "c \<noteq> [] \<Longrightarrow> \<not> P (hd c) \<Longrightarrow> dropWhile P c = c"
  by (cases c) auto

lemma strip_padded:
  assumes a: "list_all isspace a" and b: "list_all isspace b"
    and c: "c = [] \<or> (\<not> isspace (hd c) \<and> \<not> isspace (last c))"
  shows "strip (a @ c @ b) = c"
proof (cases "c = []")
  case True
  have "dropWhile isspace (a @ b) = []"
    using a b by (auto simp: dropWhile_eq_Nil_conv list_all_iff)
  then have "strip (a @ [] @ b) = []"
    by (simp only: strip_def append_Nil rev.simps dropWhile.simps)
  with True show ?thesis by simp
next
  case False
  with c have h: "\<not> isspace (hd c)" and l: "\<not> isspace (last c)" by auto
  have 1: "dropWhile isspace (a @ c @ b) = c @ b"
    using a False h by (simp add: dropWhile_all dropWhile_hd)
  have rb: "list_all isspace (rev b)" using b by (simp add: list_all_iff)
  have "dropWhile isspace (rev b @ rev c) = dropWhile isspace (rev c)"
    using rb by (rule dropWhile_all)
  also have "\<dots> = rev c"
    using False l by (intro dropWhile_hd) (simp_all add: hd_rev)
  finally show ?thesis using 1 by (simp add: strip_def)
qed

lemma filter_kept_hd:
  "c \<noteq> [] \<Longrightarrow> P (hd c) \<Longrightarrow> filter P c \<noteq> [] \<and> hd (filter P c) = hd c"
  by (cases c) auto

lemma filter_kept_last:
  "c \<noteq> [] \<Longrightarrow> P (last c) \<Longrightarrow> filter P c \<noteq> [] \<and> last (filter P c) = last c"
  by (induction c rule: rev_induct) auto

lemma unpackString_filter:
  "unpackString data = strip (filter kept data)"
  by (simp add: unpackString_def decode_ignore_def kept_def [abs_def] conj_commute)

lemma unpackString_padded:
  assumes pre: "list_all padding pre" and post: "list_all padding post"
    and core: "core = [] \<or> (\<not> padding (hd core) \<and> \<not> padding (last core))"
  shows "unpackString (pre @ core @ post) = filter kept core"
proof -
    have a: "list_all isspace (filter kept pre)"
    using pre by (auto simp: list_all_iff padding_def kept_def)
  have b: "list_all isspace (filter kept post)"
    using post by (auto simp: list_all_iff padding_def kept_def)
  have c: "filter kept core = [] \<or>
      (\<not> isspace (hd (filter kept core)) \<and> \<not> isspace (last (filter kept core)))"
  proof (cases "core = []")
    case True then show ?thesis by simp
  next
    case False
    with core have h: "kept (hd core)" "\<not> isspace (hd core)"
      and l: "kept (last core)" "\<not> isspace (last core)"
      by (auto simp: padding_def kept_def)
    from filter_kept_hd [of core kept] filter_kept_last [of core kept] False h l
    show ?thesis by simp
  qed
  have "unpackString (pre @ core @ post)
      = strip (filter kept pre @ filter kept core @ filter kept post)"
    by (simp add: unpackString_filter)
  also have "\<dots> = filter kept core" using a b c by (rule strip_padded)
  finally show ?thesis .
qed




lemma padding_split:
  "\<exists>pre core post. data = pre @ core @ post \<and> list_all padding pre \<and> list_all padding post
      \<and> (core = [] \<or> (\<not> padding (hd core) \<and> \<not> padding (last core)))"
proof -
  define pre where "pre = takeWhile padding data"
  define rest where "rest = dropWhile padding data"
  define post where "post = rev (takeWhile padding (rev rest))"
  define core where "core = rev (dropWhile padding (rev rest))"
  have rest: "rest = core @ post"
  proof -
    have "core @ post = rev (takeWhile padding (rev rest) @ dropWhile padding (rev rest))"
      unfolding core_def post_def by (simp only: rev_append)
    also have "\<dots> = rev (rev rest)" by (simp only: takeWhile_dropWhile_id)
    finally show ?thesis by simp
  qed
  have data: "data = pre @ core @ post"
    unfolding rest [symmetric] by (simp add: pre_def rest_def)
  have pre: "list_all padding pre"
    by (auto simp: pre_def list_all_iff dest: set_takeWhileD)
  have post: "list_all padding post"
    by (auto simp: post_def list_all_iff dest: set_takeWhileD)
  have ends: "\<not> padding (hd core) \<and> \<not> padding (last core)" if ne: "core \<noteq> []"
  proof
    from ne have "rest \<noteq> []" using rest by simp
    then have "\<not> padding (hd rest)" unfolding rest_def by (rule hd_dropWhile)
    with ne rest show "\<not> padding (hd core)" by simp
    from ne have d: "dropWhile padding (rev rest) \<noteq> []" by (simp add: core_def)
    then have "\<not> padding (hd (dropWhile padding (rev rest)))" by (rule hd_dropWhile)
    with d show "\<not> padding (last core)" by (simp add: core_def last_rev)
  qed
  from data pre post ends show ?thesis by blast
qed

section \<open>The extension modules\<close>

lemma sendHotkeys_gated:
  "\<not> supports p (''TextHotKey'', 1)
     \<Longrightarrow> sent_packets (sendTextHotkeys Packets hotkeys \<lparr>connectionInfo = info, player = Some p\<rparr>) = []"
  by (simp add: sendTextHotkeys_def sent_packets_def)

lemma sendClickDistance_ignores_capabilities:
  "sendClickDistance Packets self (p\<lparr>capabilities := caps\<rparr>) = sendClickDistance Packets self p"
  by (simp add: sendClickDistance_def setClickDistance_def)

section \<open>The claims\<close>

subsection \<open>C1: the Stone scenario\<close>





subsection \<open>C2: the name view and the id view\<close>




subsection \<open>C3: a conflict without override\<close>

text \<open>
  C3. A registration without the override flag whose name is a key of the name index,
  or whose id is an id of the manager (a key of \<open>_blockIds\<close>; an id of a registered
  packet), raises \<open>InitRegisterError\<close> and leaves the manager as it was, its indexes
  and its cache included. In a manager built from the empty one by any \<open>register\<close>
  calls, with or without override, this covers every registration whose name or id is
  the name or id of an entry that the manager holds.
\<close>

theorem C3_conflict_leaves_registry_unchanged:
  "(\<not> OVERRIDE c
      \<and> (dict_contains (blockDict self) (NAME c) \<or> dict_contains (blockIds self) (AbstractBlock.ID c))
      \<longrightarrow> result (register self c m) = Inl InitRegisterError
          \<and> manager_after (register self c m) = self)
   \<and> (\<not> OVERRIDE c
      \<and> e \<in> set (dict_values (blockDict (registerAll BlockManager_init calls)))
              \<union> set (dict_values (blockIds (registerAll BlockManager_init calls)))
      \<and> (NAME e = NAME c \<or> AbstractBlock.ID e = AbstractBlock.ID c)
      \<longrightarrow> result (register (registerAll BlockManager_init calls) c m) = Inl InitRegisterError
          \<and> manager_after (register (registerAll BlockManager_init calls) c m)
              = registerAll BlockManager_init calls)
   \<and> (\<not> OVERRIDE pc
      \<and> (dict_contains (packetDict pself) (NAME pc) \<or> AbstractPacket.ID pc \<in> set (getAllPacketIds pself))
      \<longrightarrow> result (register_packet pself pc m) = Inl InitRegisterError
          \<and> manager_after (register_packet pself pc m) = pself)
   \<and> (\<not> OVERRIDE pc
      \<and> pe \<in> set (dict_values (packetDict (register_packets (DirectionalPacketManager_init d) pcalls)))
      \<and> (NAME pe = NAME pc \<or> AbstractPacket.ID pe = AbstractPacket.ID pc)
      \<longrightarrow> result (register_packet (register_packets (DirectionalPacketManager_init d) pcalls) pc m)
            = Inl InitRegisterError
          \<and> manager_after (register_packet (register_packets (DirectionalPacketManager_init d) pcalls) pc m)
            = register_packets (DirectionalPacketManager_init d) pcalls)"
proof (intro conjI impI; (elim conjE)?)
  assume "\<not> OVERRIDE c"
    and "dict_contains (blockDict self) (NAME c) \<or> dict_contains (blockIds self) (AbstractBlock.ID c)"
  then show "result (register self c m) = Inl InitRegisterError"
    and "manager_after (register self c m) = self"
    by (rule register_conflict)+
next
  let ?s = "registerAll BlockManager_init calls"
  assume no: "\<not> OVERRIDE c"
    and e: "e \<in> set (dict_values (blockDict ?s)) \<union> set (dict_values (blockIds ?s))"
    and same: "NAME e = NAME c \<or> AbstractBlock.ID e = AbstractBlock.ID c"
  have "keys_cover ?s" using keys_cover_init by (rule keys_cover_registerAll)
  then have "dict_contains (blockDict ?s) (NAME c) \<or> dict_contains (blockIds ?s) (AbstractBlock.ID c)"
    using e same by (rule keys_cover_collision)
  with no show "result (register ?s c m) = Inl InitRegisterError"
    and "manager_after (register ?s c m) = ?s"
    by (rule register_conflict)+
next
  assume "\<not> OVERRIDE pc"
    and "dict_contains (packetDict pself) (NAME pc) \<or> AbstractPacket.ID pc \<in> set (getAllPacketIds pself)"
  then show "result (register_packet pself pc m) = Inl InitRegisterError"
    and "manager_after (register_packet pself pc m) = pself"
    by (rule register_packet_conflict)+
next
  let ?s = "register_packets (DirectionalPacketManager_init d) pcalls"
  assume no: "\<not> OVERRIDE pc"
    and e: "pe \<in> set (dict_values (packetDict ?s))"
    and same: "NAME pe = NAME pc \<or> AbstractPacket.ID pe = AbstractPacket.ID pc"
  from e same
  have "dict_contains (packetDict ?s) (NAME pc) \<or> AbstractPacket.ID pc \<in> set (getAllPacketIds ?s)"
    by (rule packet_collision)
  with no show "result (register_packet ?s pc m) = Inl InitRegisterError"
    and "manager_after (register_packet ?s pc m) = ?s"
    by (rule register_packet_conflict)+
qed

theorem C3_conflict_leaves_registry_unchanged_witness:
  "result (register stone_dirt (blockClass ''Stone'' 7 False) module_B) = Inl InitRegisterError
   \<and> manager_after (register stone_dirt (blockClass ''Stone'' 7 False) module_B) = stone_dirt
   \<and> result (register stone_dirt (blockClass ''Sand'' 2 False) module_B) = Inl InitRegisterError
   \<and> manager_after (register stone_dirt (blockClass ''Sand'' 2 False) module_B) = stone_dirt
   \<and> result (register_packet packets_A_B (requestPacket ''A'' 9 True False) module_B) = Inl InitRegisterError
   \<and> manager_after (register_packet packets_A_B (requestPacket ''A'' 9 True False) module_B) = packets_A_B
   \<and> result (register_packet packets_A_B (requestPacket ''C'' 2 True False) module_B) = Inl InitRegisterError
   \<and> manager_after (register_packet packets_A_B (requestPacket ''C'' 2 True False) module_B) = packets_A_B"
proof -
  let ?calls = "[(blockClass ''Stone'' 1 False, module_A), (blockClass ''Dirt'' 2 False, module_A)]"
  let ?pcalls = "[(requestPacket ''A'' 1 True False, module_A), (requestPacket ''B'' 2 False False, module_A)]"
  let ?D = "initSubmodule (blockClass ''Dirt'' 2 False) module_A"
  let ?B = "initSubmodule (requestPacket ''B'' 2 False False) module_A"
  have name: "\<not> OVERRIDE (blockClass ''Stone'' 7 False)"
      "dict_contains (blockDict stone_dirt) (NAME (blockClass ''Stone'' 7 False))"
    by code_simp+
  have ident: "\<not> OVERRIDE (blockClass ''Sand'' 2 False)"
      "?D \<in> set (dict_values (blockDict stone_dirt)) \<union> set (dict_values (blockIds stone_dirt))"
      "AbstractBlock.ID ?D = AbstractBlock.ID (blockClass ''Sand'' 2 False)"
    by code_simp+
  have pname: "\<not> OVERRIDE (requestPacket ''A'' 9 True False)"
      "dict_contains (packetDict packets_A_B) (NAME (requestPacket ''A'' 9 True False))"
    by code_simp+
  have packet: "\<not> OVERRIDE (requestPacket ''C'' 2 True False)"
      "?B \<in> set (dict_values (packetDict packets_A_B))"
      "AbstractPacket.ID ?B = AbstractPacket.ID (requestPacket ''C'' 2 True False)"
    by code_simp+
  from name
    C3_conflict_leaves_registry_unchanged
      [where self = stone_dirt and c = "blockClass ''Stone'' 7 False" and m = module_B]
  have 1: "result (register stone_dirt (blockClass ''Stone'' 7 False) module_B) = Inl InitRegisterError
      \<and> manager_after (register stone_dirt (blockClass ''Stone'' 7 False) module_B) = stone_dirt"
    by blast
  from ident
    C3_conflict_leaves_registry_unchanged
      [where calls = "?calls" and c = "blockClass ''Sand'' 2 False" and e = "?D" and m = module_B]
  have 2: "result (register stone_dirt (blockClass ''Sand'' 2 False) module_B) = Inl InitRegisterError
      \<and> manager_after (register stone_dirt (blockClass ''Sand'' 2 False) module_B) = stone_dirt"
    unfolding stone_dirt_def by blast
  from pname
    C3_conflict_leaves_registry_unchanged
      [where pself = packets_A_B and pc = "requestPacket ''A'' 9 True False" and m = module_B]
  have 3: "result (register_packet packets_A_B (requestPacket ''A'' 9 True False) module_B) = Inl InitRegisterError
      \<and> manager_after (register_packet packets_A_B (requestPacket ''A'' 9 True False) module_B) = packets_A_B"
    by blast
  from packet
    C3_conflict_leaves_registry_unchanged
      [where pcalls = "?pcalls" and d = REQUEST and pc = "requestPacket ''C'' 2 True False"
         and pe = "?B" and m = module_B]
  have 4: "result (register_packet packets_A_B (requestPacket ''C'' 2 True False) module_B) = Inl InitRegisterError
      \<and> manager_after (register_packet packets_A_B (requestPacket ''C'' 2 True False) module_B) = packets_A_B"
    unfolding packets_A_B_def by blast
  from 1 2 3 4 show ?thesis by simp
qed

subsection \<open>C4: the warning of an override without effect\<close>

text \<open>
  C4 says that an override which collides with an existing entry succeeds without the
  warning. The code does otherwise. A request manager holds packet \<open>A\<close> with id 1;
  registering a packet \<open>A\<close> with id 1 and the override flag collides in name and id,
  succeeds, and still logs the warning that it overrides a packet that does not exist:
  the test compares the id with the names and the name with the ids
  (\<open>register_packet_override_always_warns\<close>). In the block manager the warning is logged
  exactly when neither key collides (\<open>register_override_warns_iff\<close>), but an
  override whose name collides and whose id is new raises \<open>KeyError\<close>
  (\<open>register_override_partial_collision\<close>), as \<open>Stone\<close> with id 2 does here.
\<close>

theorem C4_override_warning_on_collision:
  "dict_contains (packetDict packets_A_B) ''A''
   \<and> 1 \<in> set (getAllPacketIds packets_A_B)
   \<and> result (register_packet packets_A_B (requestPacket ''A'' 1 True True) module_B)
       = Inr (initSubmodule (requestPacket ''A'' 1 True True) module_B)
   \<and> Warn_OverrideDoesNotExist ''A'' 1 ''B''
       \<in> set (logged (register_packet packets_A_B (requestPacket ''A'' 1 True True) module_B))
   \<and> dict_contains (blockDict stone_1_A) ''Stone''
   \<and> result (register stone_1_A (blockClass ''Stone'' 2 True) module_B) = Inl KeyError"
  by code_simp

theorem C4_override_warning_on_collision_witness:
  "logged (register_packet packets_A_B (requestPacket ''A'' 1 True True) module_B)
     = [Debug_Registering ''A'' ''B'', Warn_OverrideDoesNotExist ''A'' 1 ''B'',
        Verbose_AddingToLoopCache 1]
   \<and> Warn_OverrideDoesNotExist ''A'' 1 ''B''
       \<in> set (logged (register_packet packets_A_B (requestPacket ''A'' 1 True True) module_B))"
proof -
  have "logged (register_packet packets_A_B (requestPacket ''A'' 1 True True) module_B)
     = [Debug_Registering ''A'' ''B'', Warn_OverrideDoesNotExist ''A'' 1 ''B'',
        Verbose_AddingToLoopCache 1]"
    by code_simp
  with C4_override_warning_on_collision show ?thesis by blast
qed

subsection \<open>C5: the hot-path cache\<close>




subsection \<open>C6: the round trip of a fixed-width string\<close>





subsection \<open>C7: what unpacking removes\<close>

text \<open>
  C7, as stated, fails: unpacking removes more than trailing padding. Of the five bytes
  space, \<open>a\<close>, NUL, \<open>b\<close>, space it keeps \<open>ab\<close>: the leading space and the interior
  NUL byte are removed as well.
\<close>

theorem C7_counterexample:
  "unpackString [CHR '' '', CHR ''a'', CHR 0x00, CHR ''b'', CHR '' ''] = ''ab''
   \<and> ''ab'' \<noteq> [CHR '' '', CHR ''a'', CHR 0x00, CHR ''b'']"
  by code_simp

text \<open>
  C7, amended. \<open>unpackString\<close> is total: it never fails. Every byte sequence splits
  into a prefix, a core and a suffix, where prefix and suffix consist of NUL bytes,
  whitespace and bytes that \<open>ascii\<close> cannot decode, and the core is empty or begins and
  ends with a byte that is none of these. For every such split the result is the core
  without its NUL bytes and its undecodable bytes, in order: NUL and undecodable bytes
  are removed wherever they stand, whitespace is stripped at both ends, and whitespace
  inside the core is preserved.
\<close>

theorem C7_unpack_strips_both_ends_and_all_NUL:
  "(\<exists>pre core post. data = pre @ core @ post \<and> list_all padding pre \<and> list_all padding post
       \<and> (core = [] \<or> (\<not> padding (hd core) \<and> \<not> padding (last core))))
   \<and> (list_all padding pre \<and> list_all padding post
       \<and> (core = [] \<or> (\<not> padding (hd core) \<and> \<not> padding (last core)))
      \<longrightarrow> unpackString (pre @ core @ post) = filter kept core)"
  using padding_split [of data] unpackString_padded [of pre post core] by blast

theorem C7_unpack_strips_both_ends_and_all_NUL_witness:
  "unpackString ([CHR '' '', CHR 0x00] @ [CHR ''a'', CHR 0x00, CHR '' '', CHR 0xFF, CHR ''b'']
       @ [CHR '' '', CHR 0x00, CHR '' ''])
     = ''a b''"
proof -
  let ?pre = "[CHR '' '', CHR 0x00]"
  let ?core = "[CHR ''a'', CHR 0x00, CHR '' '', CHR 0xFF, CHR ''b'']"
  let ?post = "[CHR '' '', CHR 0x00, CHR '' '']"
  have "list_all padding ?pre" "list_all padding ?post"
    "?core = [] \<or> (\<not> padding (hd ?core) \<and> \<not> padding (last ?core))"
    by code_simp+
  with C7_unpack_strips_both_ends_and_all_NUL [of _ ?pre ?post ?core]
  have "unpackString (?pre @ ?core @ ?post) = filter kept ?core" by blast
  moreover have "filter kept ?core = ''a b''" by code_simp
  ultimately show ?thesis by simp
qed

subsection \<open>C8: capability gating\<close>



subsection \<open>C9: the lookup by name\<close>




subsection \<open>C10: membership is exact-case\<close>



end
